theory Spec2Isabelle
  imports Main
begin

text \<open>
  The JOEL QR server: the client of the JORFSearch index (\<open>JORFSearch.utils.ts\<close>) with
  its name normalizer, and the handlers \<open>/qrcode\<close> and \<open>/choose\<close> of \<open>server.ts\<close> up
  to the calls of the raster libraries and of the page template.
\<close>

section \<open>Strings\<close>

text \<open>
  A JavaScript string is modelled as the list of its Unicode code points, the unit in
  which the \<open>u\<close>-flag regular expression, \<open>trim\<close>, \<open>toLowerCase\<close>,
  \<open>toUpperCase\<close> and \<open>encodeURI\<close> read it. A lone surrogate is a code point in
  \<open>0xD800..0xDFFF\<close>.
\<close>

type_synonym ustring = "nat list"

definition u :: "string \<Rightarrow> ustring" where
  "u s = map of_char s"

text \<open>
  \<open>WhiteSpace\<close> and \<open>LineTerminator\<close> of ECMAScript: the characters \<open>trim\<close> strips and
  the class \<open>\s\<close> matches.
\<close>

definition isWhiteSpace :: "nat \<Rightarrow> bool" where
  "isWhiteSpace c =
     (c = 0x09 \<or> c = 0x0A \<or> c = 0x0B \<or> c = 0x0C \<or> c = 0x0D \<or> c = 0x20 \<or> c = 0xA0
      \<or> c = 0x1680 \<or> (0x2000 \<le> c \<and> c \<le> 0x200A) \<or> c = 0x2028 \<or> c = 0x2029
      \<or> c = 0x202F \<or> c = 0x205F \<or> c = 0x3000 \<or> c = 0xFEFF)"

definition trim :: "ustring \<Rightarrow> ustring" where
  "trim s = rev (dropWhile isWhiteSpace (rev (dropWhile isWhiteSpace s)))"

text \<open>
  The case mappings and the letter class \<open>\p{L}\<close> of the runtime, written out for Basic
  Latin and Latin-1 Supplement (\<open>U+0000..U+00FF\<close>) and for the three letters that
  upper-casing reaches from there: \<open>U+0178\<close> (upper case of \<open>U+00FF\<close>) and
  \<open>U+039C\<close>, \<open>U+03BC\<close> (upper case of \<open>U+00B5\<close> and its lower case). On the
  combining marks \<open>U+0300..U+036F\<close> (category Mn: no letters, unchanged by lower-casing)
  the definitions agree with the runtime as well. Beyond this the Unicode tables are not
  reproduced: the definitions leave such a code point unchanged and do not count it as a
  letter. The section on the case tables of a runtime below takes the tables as a
  parameter instead.
\<close>

definition lower :: "nat \<Rightarrow> nat" where
  "lower c =
     (if (0x41 \<le> c \<and> c \<le> 0x5A) \<or> (0xC0 \<le> c \<and> c \<le> 0xDE \<and> c \<noteq> 0xD7) then c + 0x20
      else if c = 0x178 then 0xFF
      else if c = 0x39C then 0x3BC
      else c)"

definition toLowerCase :: "ustring \<Rightarrow> ustring" where
  "toLowerCase s = map lower s"

definition upper :: "nat \<Rightarrow> ustring" where
  "upper c =
     (if (0x61 \<le> c \<and> c \<le> 0x7A) \<or> (0xE0 \<le> c \<and> c \<le> 0xFE \<and> c \<noteq> 0xF7) then [c - 0x20]
      else if c = 0xB5 then [0x39C]
      else if c = 0xDF then [0x53, 0x53]
      else if c = 0xFF then [0x178]
      else if c = 0x3BC then [0x39C]
      else [c])"

definition toUpperCase :: "ustring \<Rightarrow> ustring" where
  "toUpperCase s = concat (map upper s)"

definition isLetter :: "nat \<Rightarrow> bool" where
  "isLetter c =
     ((0x41 \<le> c \<and> c \<le> 0x5A) \<or> (0x61 \<le> c \<and> c \<le> 0x7A) \<or> c = 0xAA \<or> c = 0xB5
      \<or> c = 0xBA \<or> (0xC0 \<le> c \<and> c \<le> 0xD6) \<or> (0xD8 \<le> c \<and> c \<le> 0xF6)
      \<or> (0xF8 \<le> c \<and> c \<le> 0xFF) \<or> c = 0x178 \<or> c = 0x39C \<or> c = 0x3BC)"

section \<open>The name normalizer\<close>

text \<open>The class of the combining marks, \<open>U+0300..U+036F\<close>.\<close>

definition isCombiningMark :: "nat \<Rightarrow> bool" where
  "isCombiningMark c = (0x300 \<le> c \<and> c \<le> 0x36F)"

text \<open>The class \<open>[\s\-']\<close>.\<close>

definition isDelimiter :: "nat \<Rightarrow> bool" where
  "isDelimiter c = (isWhiteSpace c \<or> c = 0x2D \<or> c = 0x27)"

text \<open>The class \<open>[()]\<close>.\<close>

definition isParenthesis :: "nat \<Rightarrow> bool" where
  "isParenthesis c = (c = 0x28 \<or> c = 0x29)"

text \<open>
  \<open>out.replace(/(^|[\s\-'])\p{L}/gu, (m) => m.toUpperCase())\<close>: the global replace
  scans from the left. At the start of the string a letter alone is a match; at any
  position a delimiter followed by a letter is a match; a match \<open>m\<close> is replaced by
  \<open>m.toUpperCase()\<close> and the scan goes on behind it. Where nothing matches the
  character is copied. The flag says whether the scan is at the start of the string.
\<close>

fun capitalise :: "bool \<Rightarrow> ustring \<Rightarrow> ustring" where
  "capitalise start [] = []"
| "capitalise start [c] =
     (if start \<and> isLetter c then toUpperCase [c] else [c])"
| "capitalise start (c # d # ds) =
     (if start \<and> isLetter c then toUpperCase [c] @ capitalise False (d # ds)
      else if isDelimiter c \<and> isLetter d then toUpperCase [c, d] @ capitalise False ds
      else c # capitalise False (d # ds))"

definition cleanPeopleNameJORFURL :: "ustring \<Rightarrow> ustring" where
  "cleanPeopleNameJORFURL input =
     (if input = [] then []
      else
        let out = toLowerCase (trim input);
            out = filter (\<lambda>c. \<not> isCombiningMark c) out;
            out = capitalise True out;
            out = filter (\<lambda>c. \<not> isParenthesis c) out
        in out)"

section \<open>URI encoding\<close>

text \<open>
  \<open>encodeURI\<close>: the reserved and the unescaped characters and \<open>#\<close> are kept; any other
  code point is written as the percent-escaped bytes of its UTF-8 form; a lone surrogate
  raises URIError (\<open>None\<close>).
\<close>

definition uriKept :: "nat \<Rightarrow> bool" where
  "uriKept c =
     ((0x41 \<le> c \<and> c \<le> 0x5A) \<or> (0x61 \<le> c \<and> c \<le> 0x7A) \<or> (0x30 \<le> c \<and> c \<le> 0x39)
      \<or> c \<in> set (u '';/?:@&=+$,#-_.!~*'()''))"

definition isSurrogate :: "nat \<Rightarrow> bool" where
  "isSurrogate c = (0xD800 \<le> c \<and> c \<le> 0xDFFF)"

definition utf8 :: "nat \<Rightarrow> nat list" where
  "utf8 c =
     (if c < 0x80 then [c]
      else if c < 0x800 then [0xC0 + c div 0x40, 0x80 + c mod 0x40]
      else if c < 0x10000 then
        [0xE0 + c div 0x1000, 0x80 + (c div 0x40) mod 0x40, 0x80 + c mod 0x40]
      else
        [0xF0 + c div 0x40000, 0x80 + (c div 0x1000) mod 0x40,
         0x80 + (c div 0x40) mod 0x40, 0x80 + c mod 0x40])"

definition hexDigit :: "nat \<Rightarrow> nat" where
  "hexDigit n = (if n < 10 then 0x30 + n else 0x41 + (n - 10))"

definition percent :: "nat \<Rightarrow> ustring" where
  "percent b = [0x25, hexDigit (b div 16), hexDigit (b mod 16)]"

definition encodeURI :: "ustring \<Rightarrow> ustring option" where
  "encodeURI s =
     (if list_ex isSurrogate s then None
      else Some (concat (map (\<lambda>c. if uriKept c then [c] else concat (map percent (utf8 c))) s)))"

section \<open>The search client\<close>

text \<open>
  An object of a JSON array answered by the index, with the fields the code reads:
  \<open>prenom\<close> and \<open>nom\<close> of a search item, \<open>name\<close> of an organisation identity. A field
  is \<open>None\<close> when the object does not have it (\<open>undefined\<close>) or has \<open>null\<close> there.
\<close>

record json_object =
  prenom :: "ustring option"
  nom :: "ustring option"
  name :: "ustring option"

text \<open>
  The body of a response as axios hands it over in \<open>data\<close>, within the type
  \<open>JORFSearchResponse\<close> of the source: \<open>null\<close>, a string (also a body that is not
  JSON, which axios leaves as text), or an array of objects.
\<close>

datatype body = Null | Str ustring | Array "json_object list"

text \<open>
  \<open>axios.get\<close> either rejects (network error, status outside 2xx) or resolves with
  the body and with \<open>request.res.responseUrl\<close>, the location the transport ended at
  (\<open>None\<close> when the transport does not expose it).
\<close>

datatype AxiosResponse = Rejected | Fulfilled body "ustring option"

text \<open>
  The index answers a request knowing the requests made before it. The world holds the
  requests sent to the index and the analytics events emitted, in order.
\<close>

type_synonym transport = "ustring list \<Rightarrow> ustring \<Rightarrow> AxiosResponse"

datatype UmamiEvent =
  QrcodePeople | QrcodeOrganisation | QrcodeTag
  | GatewayPeople | GatewayOrganisation | GatewayTag
  | JorfsearchRequestPeople | JorfsearchRequestPeopleFormatted
  | JorfsearchRequestTag | JorfsearchRequestOrganisation

record world =
  requests :: "ustring list"
  events :: "UmamiEvent list"

text \<open>\<open>umami.log\<close> catches its own transport failure: it never throws.\<close>

definition umami_log :: "UmamiEvent \<Rightarrow> world \<Rightarrow> world" where
  "umami_log e w = w\<lparr>events := events w @ [e]\<rparr>"

definition axios_get :: "transport \<Rightarrow> ustring \<Rightarrow> world \<Rightarrow> AxiosResponse \<times> world" where
  "axios_get net url w = (net (requests w) url, w\<lparr>requests := requests w @ [url]\<rparr>)"

text \<open>\<open>raw_items.reduce\<close> with \<open>tab.push\<close>: a left fold that appends.\<close>

definition cleanJORFItems :: "json_object list \<Rightarrow> json_object list" where
  "cleanJORFItems raw_items =
     foldl (\<lambda>tab raw_item.
              if nom raw_item \<noteq> None \<and> prenom raw_item \<noteq> None then tab @ [raw_item] else tab)
       [] raw_items"

definition endsWith :: "ustring \<Rightarrow> ustring \<Rightarrow> bool" where
  "endsWith s suffix =
     (if length suffix \<le> length s then drop (length s - length suffix) s = suffix else False)"

definition JORFSEARCH :: ustring where
  "JORFSEARCH = u ''https://jorfsearch.steinertriples.ch/''"

definition FORMAT_JSON :: ustring where
  "FORMAT_JSON = u ''?format=JSON''"

text \<open>
  Every exception inside the \<open>try\<close> block (a rejected request, URIError of
  \<open>encodeURI\<close>) ends in the \<open>catch\<close>, which returns the empty array.
\<close>

definition callJORFSearchPeople ::
    "transport \<Rightarrow> ustring \<Rightarrow> world \<Rightarrow> json_object list \<times> world" where
  "callJORFSearchPeople net peopleName w0 =
     (let w1 = umami_log JorfsearchRequestPeople w0 in
      case encodeURI (JORFSEARCH @ u ''name/'' @ cleanPeopleNameJORFURL peopleName @ FORMAT_JSON) of
        None \<Rightarrow> ([], w1)
      | Some url1 \<Rightarrow>
          let (res1, w2) = axios_get net url1 w1 in
          (case res1 of
             Rejected \<Rightarrow> ([], w2)
           | Fulfilled data1 responseUrl \<Rightarrow>
               (case data1 of
                  Null \<Rightarrow> ([], w2)
                | Array raw_items \<Rightarrow> (cleanJORFItems raw_items, w2)
                | Str _ \<Rightarrow>
                    (case responseUrl of
                       None \<Rightarrow> ([], w2)
                     | Some loc \<Rightarrow>
                         if loc = [] then ([], w2)
                         else
                           let w3 = umami_log JorfsearchRequestPeopleFormatted w2;
                               (res2, w4) =
                                 axios_get net
                                   (if endsWith loc FORMAT_JSON then loc else loc @ FORMAT_JSON) w3
                           in (case res2 of
                                 Rejected \<Rightarrow> ([], w4)
                               | Fulfilled data2 _ \<Rightarrow>
                                   (case data2 of
                                      Null \<Rightarrow> ([], w4)
                                    | Str _ \<Rightarrow> ([], w4)
                                    | Array raw_items \<Rightarrow> (cleanJORFItems raw_items, w4)))))))"

definition callJORFSearchTag ::
    "transport \<Rightarrow> ustring \<Rightarrow> ustring option \<Rightarrow> world \<Rightarrow> json_object list \<times> world" where
  "callJORFSearchTag net tag tagValue w0 =
     (let w1 = umami_log JorfsearchRequestTag w0 in
      case encodeURI
             (JORFSEARCH @ u ''tag/'' @ tag
              @ (case tagValue of Some v \<Rightarrow> [0x3D, 0x22] @ v @ [0x22] | None \<Rightarrow> [])
              @ FORMAT_JSON) of
        None \<Rightarrow> ([], w1)
      | Some url \<Rightarrow>
          let (res, w2) = axios_get net url w1 in
          (case res of
             Rejected \<Rightarrow> ([], w2)
           | Fulfilled data _ \<Rightarrow>
               (case data of
                  Null \<Rightarrow> ([], w2)
                | Str _ \<Rightarrow> ([], w2)
                | Array raw_items \<Rightarrow> (cleanJORFItems raw_items, w2))))"

definition callJORFSearchOrganisation ::
    "transport \<Rightarrow> ustring \<Rightarrow> world \<Rightarrow> json_object list \<times> world" where
  "callJORFSearchOrganisation net wikiId w0 =
     (let w1 = umami_log JorfsearchRequestOrganisation w0 in
      case encodeURI (JORFSEARCH @ toUpperCase wikiId @ FORMAT_JSON) of
        None \<Rightarrow> ([], w1)
      | Some url \<Rightarrow>
          let (res, w2) = axios_get net url w1 in
          (case res of
             Rejected \<Rightarrow> ([], w2)
           | Fulfilled data _ \<Rightarrow>
               (case data of
                  Null \<Rightarrow> ([], w2)
                | Str _ \<Rightarrow> ([], w2)
                | Array raw_items \<Rightarrow> (cleanJORFItems raw_items, w2))))"

text \<open>
  \<open>callJORFSearchOrganisationName\<close> returns \<open>r.data\<close> as it came: the type argument of
  \<open>axios.get\<close> checks nothing at run time, so the result is a body, not always an array.
\<close>

definition callJORFSearchOrganisationName ::
    "transport \<Rightarrow> ustring \<Rightarrow> world \<Rightarrow> body \<times> world" where
  "callJORFSearchOrganisationName net wikidataId w0 =
     (case encodeURI (JORFSEARCH @ u ''wikidata_id_to_name?ids[]='' @ wikidataId) of
        None \<Rightarrow> (Array [], w0)
      | Some url \<Rightarrow>
          let (r, w1) = axios_get net url w0 in
          (case r of
             Rejected \<Rightarrow> (Array [], w1)
           | Fulfilled data _ \<Rightarrow> (data, w1)))"

section \<open>The server\<close>

text \<open>
  The query parameters a handler reads, each a string or absent (\<open>undefined\<close>), as the
  handlers' casts \<open>as string\<close> take them.
\<close>

record query =
  query_size :: "ustring option"
  query_frame :: "ustring option"
  query_verify :: "ustring option"
  query_name :: "ustring option"
  query_organisation :: "ustring option"
  query_function_tag :: "ustring option"

datatype FollowType = People | FunctionTag | Organisation

text \<open>
  The two interpolations of the \<open>text\<close> element of \<open>textSvg\<close> that depend on the
  label: the attribute \<open>${followLabel ? "hidden" : ""}\<close> and the content
  \<open>${followLabel ?? ""}\<close>.
\<close>

record text_element =
  hidden_attribute :: string
  text_content :: ustring

text \<open>
  A response: \<open>res.status(n).json({ error: m })\<close>, the bare QR code of a URL, or
  the frame with the QR code of a URL and the text overlay.
\<close>

datatype http_response =
  Json nat string
  | QrPng ustring
  | FramedPng ustring text_element

text \<open>
  What a handler is given: \<open>APP_URL\<close>, the index, and the raster libraries, of which
  only success or failure is kept (\<open>QRCode.toBuffer\<close> on a URL; \<open>sharp\<close> reading the
  frame and compositing).
\<close>

record env =
  APP_URL :: ustring
  net :: transport
  QRCode_toBuffer_ok :: "ustring \<Rightarrow> bool"
  sharp_ok :: bool

definition FixedSizeAndFrame :: http_response where
  "FixedSizeAndFrame = Json 400 ''Cannot use fixed size and frame at the same tile.''"

definition InvalidNameFormat :: http_response where
  "InvalidNameFormat =
     Json 400 ''Name parameter must be composed two words minimum: firstname lastname.''"

definition ConflictingParameters :: http_response where
  "ConflictingParameters =
     Json 400 ''Parameters people, function_tag and organisations are exclusive.''"

definition MissingParameter :: http_response where
  "MissingParameter =
     Json 400 ''One of people, function_tag and organisations must be provided.''"

definition NotFound :: http_response where
  "NotFound = Json 400 ''No result found on JORFSearch.''"

definition AmbiguousResult :: http_response where
  "AmbiguousResult = Json 400 ''Too many results found on JORFSearch.''"

text \<open>The \<open>catch\<close> of a handler.\<close>

definition GenerationFailed :: http_response where
  "GenerationFailed = Json 500 ''QR code generation failed.''"

text \<open>\<open>s.split(" ")\<close> for a separator of one character.\<close>

fun split_on :: "nat \<Rightarrow> ustring \<Rightarrow> ustring list" where
  "split_on sep [] = [[]]"
| "split_on sep (c # cs) =
     (if c = sep then [] # split_on sep cs
      else (case split_on sep cs of
              [] \<Rightarrow> [[c]]
            | piece # pieces \<Rightarrow> (c # piece) # pieces))"

text \<open>\<open>req.query.x ?? ""\<close>.\<close>

definition orEmpty :: "ustring option \<Rightarrow> ustring" where
  "orEmpty v = (case v of None \<Rightarrow> [] | Some s \<Rightarrow> s)"

text \<open>A value inside a template literal: \<open>undefined\<close> prints as its name.\<close>

definition interpolate :: "ustring option \<Rightarrow> ustring" where
  "interpolate v = (case v of None \<Rightarrow> u ''undefined'' | Some s \<Rightarrow> s)"

text \<open>\<open>Boolean(s)\<close> of a string.\<close>

definition Boolean :: "ustring \<Rightarrow> bool" where
  "Boolean s = (s \<noteq> [])"

definition frameEnabled :: "query \<Rightarrow> bool" where
  "frameEnabled q = (if query_frame q = Some (u ''false'') then False else True)"

definition verifyOnJORFSearch :: "query \<Rightarrow> bool" where
  "verifyOnJORFSearch q = (case query_verify q of None \<Rightarrow> False | Some v \<Rightarrow> Boolean v)"

text \<open>
  Lines 57 to 115 of \<open>/qrcode\<close>: the checks before the \<open>switch\<close>, which end in a
  400 response or in the follow type and the verification flag. (The width
  \<open>parseInt(req.query.size)\<close> only reaches the raster library and is left out.)
\<close>

definition qrcode_followType :: "query \<Rightarrow> http_response + (FollowType \<times> bool)" where
  "qrcode_followType q =
     (if query_size q \<noteq> None \<and> frameEnabled q then Inl FixedSizeAndFrame
      else
        let verify = verifyOnJORFSearch q;
            name = orEmpty (query_name q)
        in
        if name \<noteq> [] \<and> length (split_on 0x20 name) > 2 then Inl InvalidNameFormat
        else
          let followType = (if name \<noteq> [] then Some People else None);
              organisation = orEmpty (query_organisation q)
          in
          if organisation \<noteq> [] \<and> followType \<noteq> None then Inl ConflictingParameters
          else
            let followType = (if organisation \<noteq> [] then Some Organisation else followType);
                verify = (if organisation \<noteq> [] then True else verify);
                function_tag = orEmpty (query_function_tag q)
            in
            if function_tag \<noteq> [] \<and> followType \<noteq> None then Inl ConflictingParameters
            else
              let followType = (if function_tag \<noteq> [] then Some FunctionTag else followType)
              in (case followType of
                    None \<Rightarrow> Inl MissingParameter
                  | Some ft \<Rightarrow> Inr (ft, verify)))"

text \<open>
  \<open>s.length\<close> of a string counts UTF-16 code units: a code point from \<open>U+10000\<close> on
  counts twice.
\<close>

definition utf16_length :: "ustring \<Rightarrow> nat" where
  "utf16_length s = length s + length (filter (\<lambda>c. 0x10000 \<le> c) s)"

text \<open>
  \<open>JORFResult.length\<close> and \<open>JORFResult[0].name\<close> on what
  \<open>callJORFSearchOrganisationName\<close> returned: reading a property of \<open>null\<close> throws
  TypeError (\<open>None\<close>); a string has its length, and its first character has no \<open>name\<close>.
\<close>

definition body_length :: "body \<Rightarrow> nat option" where
  "body_length b =
     (case b of
        Null \<Rightarrow> None
      | Str s \<Rightarrow> Some (utf16_length s)
      | Array xs \<Rightarrow> Some (length xs))"

definition first_name :: "body \<Rightarrow> ustring option" where
  "first_name b = (case b of Array (x # _) \<Rightarrow> name x | _ \<Rightarrow> None)"

text \<open>
  The \<open>switch\<close> of \<open>/qrcode\<close> (lines 117 to 165): a response, or \<open>qr_url\<close> and
  \<open>followLabel\<close>. An exception (TypeError, URIError) reaches the handler's \<open>catch\<close>.
\<close>

definition qrcode_resolve ::
    "env \<Rightarrow> query \<Rightarrow> FollowType \<Rightarrow> bool \<Rightarrow> world
       \<Rightarrow> (http_response + (ustring \<times> ustring option)) \<times> world" where
  "qrcode_resolve e q followType verify w =
     (case followType of
        People \<Rightarrow>
          let name = orEmpty (query_name q);
              (JORFResult, w1) =
                (if verify then callJORFSearchPeople (net e) name w else ([], w))
          in
          if verify \<and> JORFResult = [] then (Inl NotFound, w1)
          else
            let prenomNom =
                  (case JORFResult of
                     [] \<Rightarrow> name
                   | item # _ \<Rightarrow> interpolate (prenom item) @ [0x20] @ interpolate (nom item))
            in (case encodeURI (APP_URL e @ u ''/choose?name='' @ prenomNom) of
                  None \<Rightarrow> (Inl GenerationFailed, w1)
                | Some qr_url \<Rightarrow> (Inr (qr_url, Some prenomNom), w1))
      | Organisation \<Rightarrow>
          let organisation = orEmpty (query_organisation q);
              (JORFResult, w1) = callJORFSearchOrganisationName (net e) organisation w
          in (case body_length JORFResult of
                None \<Rightarrow> (Inl GenerationFailed, w1)
              | Some n \<Rightarrow>
                  if n = 0 then (Inl NotFound, w1)
                  else if n > 1 then (Inl AmbiguousResult, w1)
                  else
                    (case encodeURI (APP_URL e @ u ''/choose?&organisation='' @ organisation) of
                       None \<Rightarrow> (Inl GenerationFailed, w1)
                     | Some qr_url \<Rightarrow> (Inr (qr_url, first_name JORFResult), w1)))
      | FunctionTag \<Rightarrow>
          let function_tag = orEmpty (query_function_tag q);
              (JORFResult, w1) =
                (if verify then callJORFSearchTag (net e) function_tag None w else ([], w))
          in
          if verify \<and> JORFResult = [] then (Inl NotFound, w1)
          else
            (case encodeURI (APP_URL e @ u ''/choose?&function_tag='' @ function_tag) of
               None \<Rightarrow> (Inl GenerationFailed, w1)
             | Some qr_url \<Rightarrow> (Inr (qr_url, Some function_tag), w1)))"

text \<open>The \<open>text\<close> element of \<open>textSvg\<close> (lines 211 and 212).\<close>

definition truthy :: "ustring option \<Rightarrow> bool" where
  "truthy v = (case v of None \<Rightarrow> False | Some s \<Rightarrow> Boolean s)"

definition textSvg :: "ustring option \<Rightarrow> text_element" where
  "textSvg followLabel =
     \<lparr>hidden_attribute = (if truthy followLabel then ''hidden'' else []),
      text_content = orEmpty followLabel\<rparr>"

definition qrcode_event :: "FollowType \<Rightarrow> UmamiEvent" where
  "qrcode_event followType =
     (case followType of
        People \<Rightarrow> QrcodePeople
      | Organisation \<Rightarrow> QrcodeOrganisation
      | FunctionTag \<Rightarrow> QrcodeTag)"

text \<open>Lines 167 to 239: the QR code, then the frame with the text overlay.\<close>

definition qrcode_render ::
    "env \<Rightarrow> query \<Rightarrow> FollowType \<Rightarrow> ustring \<Rightarrow> ustring option \<Rightarrow> world
       \<Rightarrow> http_response \<times> world" where
  "qrcode_render e q followType qr_url followLabel w =
     (if QRCode_toBuffer_ok e qr_url then
        if frameEnabled q then
          if sharp_ok e then
            (FramedPng qr_url (textSvg followLabel), umami_log (qrcode_event followType) w)
          else (GenerationFailed, w)
        else (QrPng qr_url, w)
      else (GenerationFailed, w))"

definition qrcode :: "env \<Rightarrow> query \<Rightarrow> world \<Rightarrow> http_response \<times> world" where
  "qrcode e q w =
     (case qrcode_followType q of
        Inl response \<Rightarrow> (response, w)
      | Inr (followType, verify) \<Rightarrow>
          (case qrcode_resolve e q followType verify w of
             (Inl response, w1) \<Rightarrow> (response, w1)
           | (Inr (qr_url, followLabel), w1) \<Rightarrow>
               qrcode_render e q followType qr_url followLabel w1))"

text \<open>
  Lines 266 to 310 of \<open>/choose\<close>: a response, or the follow type, \<open>followArg\<close> and
  \<open>followLabel\<close> that the page is then filled with.
\<close>

definition choose_resolve ::
    "env \<Rightarrow> query \<Rightarrow> world
       \<Rightarrow> (http_response + (FollowType option \<times> ustring \<times> ustring option)) \<times> world" where
  "choose_resolve e q w =
     (let followType = None; followArg = []; followLabel = Some [] in
      if query_name q \<noteq> None \<and> length (split_on 0x20 (orEmpty (query_name q))) < 2
      then (Inl InvalidNameFormat, w)
      else
        let (followType, followArg, followLabel) =
              (case query_name q of
                 None \<Rightarrow> (followType, followArg, followLabel)
               | Some n \<Rightarrow> (Some People, n, Some n))
        in
        if query_organisation q \<noteq> None \<and> followType \<noteq> None then (Inl ConflictingParameters, w)
        else
          let (stop, followType, followArg, followLabel, w1) =
                (case query_organisation q of
                   None \<Rightarrow> (None, followType, followArg, followLabel, w)
                 | Some organisation \<Rightarrow>
                     let (JORFResult, w1) = callJORFSearchOrganisationName (net e) organisation w
                     in (case body_length JORFResult of
                           None \<Rightarrow> (Some GenerationFailed, None, [], None, w1)
                         | Some n \<Rightarrow>
                             if n = 0 then (Some NotFound, None, [], None, w1)
                             else if n > 1 then (Some AmbiguousResult, None, [], None, w1)
                             else (None, Some Organisation, organisation,
                                   first_name JORFResult, w1)))
          in (case stop of
                Some response \<Rightarrow> (Inl response, w1)
              | None \<Rightarrow>
                  if query_function_tag q \<noteq> None \<and> followType \<noteq> None
                  then (Inl ConflictingParameters, w1)
                  else
                    (case query_function_tag q of
                       None \<Rightarrow> (Inr (followType, followArg, followLabel), w1)
                     | Some tag \<Rightarrow> (Inr (Some FunctionTag, tag, Some tag), w1))))"

section \<open>The name normalizer over the case tables of a runtime\<close>

text \<open>
  \<open>toLowerCase\<close>, \<open>toUpperCase\<close> and \<open>\p{L}\<close> belong to the runtime, not to the
  repository. Here they are a parameter: for every code point its lower case and its
  upper case, each a string since one character can become several, and whether it is a
  letter. Both case conversions go code point by code point, with one exception in
  \<open>toLowerCase\<close>: capital sigma \<open>U+03A3\<close>, whose lower case depends on its position
  in the word; a string with a capital sigma is outside this form.
  \<open>cleanPeopleNameJORFURL\<close> above is the instance at the tables written out there.
\<close>

record case_tables =
  lowerCaseOf :: "nat \<Rightarrow> ustring"
  upperCaseOf :: "nat \<Rightarrow> ustring"
  isLetterOf :: "nat \<Rightarrow> bool"

definition toLowerCase_by :: "case_tables \<Rightarrow> ustring \<Rightarrow> ustring" where
  "toLowerCase_by T s = concat (map (lowerCaseOf T) s)"

definition toUpperCase_by :: "case_tables \<Rightarrow> ustring \<Rightarrow> ustring" where
  "toUpperCase_by T s = concat (map (upperCaseOf T) s)"

fun capitalise_by :: "case_tables \<Rightarrow> bool \<Rightarrow> ustring \<Rightarrow> ustring" where
  "capitalise_by T start [] = []"
| "capitalise_by T start [c] =
     (if start \<and> isLetterOf T c then toUpperCase_by T [c] else [c])"
| "capitalise_by T start (c # d # ds) =
     (if start \<and> isLetterOf T c then toUpperCase_by T [c] @ capitalise_by T False (d # ds)
      else if isDelimiter c \<and> isLetterOf T d then
        toUpperCase_by T [c, d] @ capitalise_by T False ds
      else c # capitalise_by T False (d # ds))"

definition cleanPeopleNameJORFURL_by :: "case_tables \<Rightarrow> ustring \<Rightarrow> ustring" where
  "cleanPeopleNameJORFURL_by T input =
     (if input = [] then []
      else
        let out = toLowerCase_by T (trim input);
            out = filter (\<lambda>c. \<not> isCombiningMark c) out;
            out = capitalise_by T True out;
            out = filter (\<lambda>c. \<not> isParenthesis c) out
        in out)"

text \<open>The tables written out above.\<close>

definition latin1 :: case_tables where
  "latin1 = \<lparr>lowerCaseOf = (\<lambda>c. [lower c]), upperCaseOf = upper, isLetterOf = isLetter\<rparr>"

text \<open>Steps 1 and 2 on a string that needs no trimming: lower case, marks stripped.\<close>

definition relower :: "case_tables \<Rightarrow> ustring \<Rightarrow> ustring" where
  "relower T y = filter (\<lambda>c. \<not> isCombiningMark c) (toLowerCase_by T y)"

section \<open>Inputs of the examples\<close>

definition no_query :: query where
  "no_query =
     \<lparr>query_size = None, query_frame = None, query_verify = None, query_name = None,
      query_organisation = None, query_function_tag = None\<rparr>"

definition fresh :: world where
  "fresh = \<lparr>requests = [], events = []\<rparr>"

text \<open>An index that gives every request the same answer.\<close>

definition always :: "AxiosResponse \<Rightarrow> transport" where
  "always r = (\<lambda>history url. r)"

text \<open>A server on \<open>http://joel.test\<close> whose raster libraries work.\<close>

definition server :: "transport \<Rightarrow> env" where
  "server t =
     \<lparr>APP_URL = u ''http://joel.test'', net = t, QRCode_toBuffer_ok = (\<lambda>url. True),
      sharp_ok = True\<rparr>"

section \<open>Notions of the statements\<close>

text \<open>
  A character \<open>k\<close> that a second pass leaves as the first pass made it: it is its own
  lower case and no parenthesis; as a delimiter it is no letter and its own upper case;
  as a letter its upper case is one character \<open>v\<close>, no white space and no parenthesis,
  whose lower case is one letter \<open>w\<close>, no combining mark, with the upper case \<open>v\<close>
  again. (\<open>U+00DF\<close>, whose upper case is \<open>SS\<close>, is not settled.) The upper case is not
  capital sigma, which the runtime lower-cases by position.
\<close>

definition settled :: "case_tables \<Rightarrow> nat \<Rightarrow> bool" where
  "settled T k =
     (lowerCaseOf T k = [k] \<and> \<not> isParenthesis k
      \<and> (if isDelimiter k then \<not> isLetterOf T k \<and> upperCaseOf T k = [k]
         else if isLetterOf T k then
           (case upperCaseOf T k of
              [v] \<Rightarrow>
                v \<noteq> 0x3A3 \<and> \<not> isParenthesis v \<and> \<not> isWhiteSpace v
                \<and> (case lowerCaseOf T v of
                      [w] \<Rightarrow>
                        upperCaseOf T w = [v] \<and> isLetterOf T w \<and> \<not> isCombiningMark w
                    | _ \<Rightarrow> False)
            | _ \<Rightarrow> False)
         else True))"

text \<open>
  A character of the input, other than capital sigma, whose lower case is one settled
  character of the same kind (white space, combining mark). A parenthesis, its own
  lower case in every runtime, is not steady.
\<close>

definition steady :: "case_tables \<Rightarrow> nat \<Rightarrow> bool" where
  "steady T c =
     (c \<noteq> 0x3A3
      \<and> (case lowerCaseOf T c of
            [k] \<Rightarrow>
              isWhiteSpace k = isWhiteSpace c \<and> isCombiningMark k = isCombiningMark c
              \<and> settled T k
          | _ \<Rightarrow> False))"

text \<open>The raw parameters \<open>name\<close>, \<open>organisation\<close> and \<open>function_tag\<close> that are not empty.\<close>

definition provided :: "query \<Rightarrow> ustring list" where
  "provided q =
     filter (\<lambda>s. s \<noteq> [])
       [orEmpty (query_name q), orEmpty (query_organisation q), orEmpty (query_function_tag q)]"

section \<open>The name normalizer on concrete names\<close>

lemmas normalizer_defs =
  cleanPeopleNameJORFURL_def u_def trim_def toLowerCase_def lower_def isWhiteSpace_def
  isCombiningMark_def isParenthesis_def isLetter_def isDelimiter_def toUpperCase_def upper_def
  Let_def

lemmas handler_defs =
  qrcode_def qrcode_followType_def qrcode_resolve_def qrcode_render_def frameEnabled_def
  verifyOnJORFSearch_def orEmpty_def Boolean_def textSvg_def truthy_def encodeURI_def
  uriKept_def isSurrogate_def utf8_def percent_def hexDigit_def body_length_def
  utf16_length_def
  callJORFSearchOrganisationName_def JORFSEARCH_def axios_get_def u_def Let_def

lemmas example_defs = no_query_def fresh_def always_def server_def

lemma decomposed_accent_removed:
  "cleanPeopleNameJORFURL [0x65, 0x301, 0x6C, 0x69, 0x73, 0x65] = u ''Elise''"
  by (simp add: normalizer_defs)

text \<open>
  Claim C3. The normalizer is said to strip accents by decomposing characters and
  removing the combining marks, so that a precomposed \<open>U+00E9\<close> (e with acute) leaves
  no accented character, and to map \<open>jean-paul o'brien\<close> to \<open>Jean-Paul O'Brien\<close>.
  The code removes the combining marks \<open>U+0300..U+036F\<close> but never decomposes (there
  is no \<open>normalize("NFD")\<close>), although its comment announces that it strips the common
  Western diacritics: the precomposed letter of \<open>U+00E9 l i s e\<close> stays and is
  capitalised to \<open>U+00C9\<close>. The second example holds.
\<close>

theorem C3_precomposed_accent_kept:
  "cleanPeopleNameJORFURL [0xE9, 0x6C, 0x69, 0x73, 0x65] = [0xC9, 0x6C, 0x69, 0x73, 0x65]
   \<and> cleanPeopleNameJORFURL (u ''jean-paul o'brien'') = u ''Jean-Paul O'Brien''"
  by (simp add: normalizer_defs)

section \<open>Normalization of the items\<close>

lemma foldl_push_filter:
  "foldl (\<lambda>tab x. if P x then tab @ [x] else tab) acc xs = acc @ filter P xs"
  by (induction xs arbitrary: acc) simp_all

text \<open>
  Claim C6, as stated: an item is kept if and only if \<open>prenom\<close> and \<open>nom\<close> are both
  present and non-empty. The test of the code is \<open>!= undefined\<close>, which an empty string
  passes: an item whose \<open>prenom\<close> is the empty string is kept.
\<close>

theorem C6_empty_field_kept:
  "cleanJORFItems [\<lparr>prenom = Some [], nom = Some (u ''Dupont''), name = None\<rparr>]
     = [\<lparr>prenom = Some [], nom = Some (u ''Dupont''), name = None\<rparr>]"
  by (simp add: cleanJORFItems_def)

text \<open>
  Claim C6, amended: \<open>cleanJORFItems\<close> keeps, in order, exactly the items whose
  \<open>prenom\<close> and \<open>nom\<close> are both present (an empty string counts as present); the
  other items are dropped and the rest is still returned, and the array with the one
  item \<open>{"prenom":"A"}\<close> becomes the empty array.
\<close>

theorem C6_keeps_items_with_both_fields:
  "cleanJORFItems raw_items
     = filter (\<lambda>item. nom item \<noteq> None \<and> prenom item \<noteq> None) raw_items
   \<and> cleanJORFItems [\<lparr>prenom = Some (u ''A''), nom = None, name = None\<rparr>] = []"
  by (simp add: cleanJORFItems_def foldl_push_filter)

theorem C6_keeps_items_with_both_fields_witness:
  "cleanJORFItems
     [\<lparr>prenom = Some (u ''A''), nom = None, name = None\<rparr>,
      \<lparr>prenom = Some (u ''Jean''), nom = Some (u ''Dupont''), name = None\<rparr>,
      \<lparr>prenom = None, nom = Some (u ''B''), name = None\<rparr>]
     = [\<lparr>prenom = Some (u ''Jean''), nom = Some (u ''Dupont''), name = None\<rparr>]"
  using C6_keeps_items_with_both_fields
    [of "[\<lparr>prenom = Some (u ''A''), nom = None, name = None\<rparr>,
          \<lparr>prenom = Some (u ''Jean''), nom = Some (u ''Dupont''), name = None\<rparr>,
          \<lparr>prenom = None, nom = Some (u ''B''), name = None\<rparr>]"]
  by simp

section \<open>The handlers on concrete requests\<close>

text \<open>
  Claim C1. A non-empty name of fewer than two space-separated tokens is said to be
  rejected by \<open>/qrcode\<close> with the name format error, whatever the verification flag,
  and a name of two or more tokens to pass. The test of \<open>/qrcode\<close> is
  \<open>name.split(" ").length > 2\<close> where \<open>/choose\<close> has \<open>< 2\<close> and the error message
  asks for two words at least: the single token \<open>Dupont\<close> passes, with and without
  \<open>verify\<close>, and gets its QR code, while the three tokens \<open>Jean Paul Dupont\<close> are
  rejected.
\<close>

theorem C1_single_token_accepted:
  "qrcode_followType (no_query\<lparr>query_name := Some (u ''Dupont'')\<rparr>) = Inr (People, False)
   \<and> qrcode_followType
         (no_query\<lparr>query_name := Some (u ''Dupont''), query_verify := Some (u ''true'')\<rparr>)
       = Inr (People, True)
   \<and> fst (qrcode (server (always Rejected))
            (no_query\<lparr>query_name := Some (u ''Dupont''), query_frame := Some (u ''false'')\<rparr>)
            fresh)
       = QrPng (u ''http://joel.test/choose?name=Dupont'')
   \<and> qrcode_followType (no_query\<lparr>query_name := Some (u ''Jean Paul Dupont'')\<rparr>)
       = Inl InvalidNameFormat"
  by (simp add: handler_defs example_defs)

lemma hidden_exactly_when_label:
  "(hidden_attribute (textSvg followLabel) = ''hidden'')
     = (case followLabel of None \<Rightarrow> False | Some label \<Rightarrow> label \<noteq> [])"
  by (simp add: textSvg_def truthy_def Boolean_def split: option.split)

text \<open>
  Claim C2. In the framed render the overlay is said to be hidden when there is no
  label and to show the label when there is one, the \<open>hidden\<close> attribute being absent
  exactly when a label exists. The attribute is \<open>${followLabel ? "hidden" : ""}\<close>,
  the test the wrong way round: the framed QR code of \<open>Jean Dupont\<close> carries the
  label as the content of the text element together with \<open>hidden\<close>, and without a
  label the attribute is absent.
\<close>

theorem C2_label_hidden_when_present:
  "fst (qrcode (server (always Rejected)) (no_query\<lparr>query_name := Some (u ''Jean Dupont'')\<rparr>)
          fresh)
     = FramedPng (u ''http://joel.test/choose?name=Jean%20Dupont'')
         \<lparr>hidden_attribute = ''hidden'', text_content = u ''Jean Dupont''\<rparr>
   \<and> textSvg None = \<lparr>hidden_attribute = [], text_content = []\<rparr>"
  by (simp add: handler_defs example_defs)

text \<open>
  The three searches that return items answer the empty list when the request fails
  or the body is null or a string without a location to follow.
\<close>

lemma item_searches_fail_open:
  assumes "r = Rejected \<or> r = Fulfilled Null loc \<or> r = Fulfilled (Str s) None"
  shows "fst (callJORFSearchPeople (always r) peopleName w) = []"
    and "fst (callJORFSearchTag (always r) tag tagValue w) = []"
    and "fst (callJORFSearchOrganisation (always r) wikiId w) = []"
    and "r = Rejected \<Longrightarrow> fst (callJORFSearchOrganisationName (always r) wikiId w) = Array []"
  using assms
  by (auto simp: callJORFSearchPeople_def callJORFSearchTag_def callJORFSearchOrganisation_def
        callJORFSearchOrganisationName_def axios_get_def always_def Let_def
      split: option.split)

text \<open>
  Claim C7. Every entry point of the search client is said to return the empty list
  on every transport failure, a null body included, so that a failure under mandatory
  verification ends in the no-result error. \<open>callJORFSearchOrganisationName\<close> has
  the \<open>catch\<close> of the other three but not their test of the body: on a null body it
  returns \<open>null\<close>, and \<open>/qrcode\<close> for an organisation, reading \<open>JORFResult.length\<close>,
  ends in its own \<open>catch\<close> with status 500; a body that is not JSON is returned as
  the string it is, whose length is taken for a number of identities.
\<close>

theorem C7_null_body_not_empty_list:
  "callJORFSearchOrganisationName (always (Fulfilled Null None)) (u ''Q1'') fresh
     = (Null,
        \<lparr>requests =
           [u ''https://jorfsearch.steinertriples.ch/wikidata_id_to_name?ids%5B%5D=Q1''],
         events = []\<rparr>)
   \<and> fst (qrcode (server (always (Fulfilled Null None)))
            (no_query\<lparr>query_organisation := Some (u ''Q1'')\<rparr>) fresh)
       = GenerationFailed
   \<and> fst (callJORFSearchOrganisationName (always (Fulfilled (Str (u ''Bad Gateway'')) None))
            (u ''Q1'') fresh)
       = Str (u ''Bad Gateway'')
   \<and> fst (qrcode (server (always (Fulfilled (Str (u ''Bad Gateway'')) None)))
            (no_query\<lparr>query_organisation := Some (u ''Q1'')\<rparr>) fresh)
       = AmbiguousResult"
  by (simp add: handler_defs example_defs)

section \<open>Idempotence of the name normalizer\<close>

lemma capitalise_latin1: "capitalise_by latin1 start s = capitalise start s"
  by (induction start s rule: capitalise.induct)
     (simp_all add: latin1_def toUpperCase_by_def toUpperCase_def)

lemma toLowerCase_latin1: "toLowerCase_by latin1 s = toLowerCase s"
  by (induction s) (simp_all add: toLowerCase_by_def toLowerCase_def latin1_def)

lemma cleanPeopleNameJORFURL_latin1:
  "cleanPeopleNameJORFURL_by latin1 s = cleanPeopleNameJORFURL s"
  by (simp add: cleanPeopleNameJORFURL_by_def cleanPeopleNameJORFURL_def capitalise_latin1
      toLowerCase_latin1)

lemma capitalise_head:
  "start \<and> isLetterOf T c \<Longrightarrow>
     capitalise_by T start (c # rest) = upperCaseOf T c @ capitalise_by T False rest"
  by (cases rest) (simp_all add: toUpperCase_by_def)

lemma capitalise_pair:
  "\<not> (start \<and> isLetterOf T c) \<Longrightarrow> isDelimiter c \<Longrightarrow> isLetterOf T d \<Longrightarrow>
     capitalise_by T start (c # d # ds)
       = upperCaseOf T c @ upperCaseOf T d @ capitalise_by T False ds"
  by (auto simp add: toUpperCase_by_def)

lemma capitalise_copy:
  "\<not> (start \<and> isLetterOf T c) \<Longrightarrow> \<not> (isDelimiter c \<and> isLetterOf T d) \<Longrightarrow>
     capitalise_by T start (c # d # ds) = c # capitalise_by T False (d # ds)"
  by auto

lemma capitalise_single:
  "\<not> (start \<and> isLetterOf T c) \<Longrightarrow> capitalise_by T start [c] = [c]"
  by auto

lemma settled_lower: "settled T k \<Longrightarrow> lowerCaseOf T k = [k]"
  by (simp add: settled_def)

lemma settled_no_parenthesis: "settled T k \<Longrightarrow> \<not> isParenthesis k"
  by (simp add: settled_def)

lemma settled_delimiter:
  "settled T k \<Longrightarrow> isDelimiter k \<Longrightarrow> \<not> isLetterOf T k \<and> upperCaseOf T k = [k]"
  by (simp add: settled_def)

lemma settled_letter:
  assumes "settled T k" "isLetterOf T k"
  obtains v w where "upperCaseOf T k = [v]" "\<not> isParenthesis v" "\<not> isWhiteSpace v"
    "lowerCaseOf T v = [w]" "upperCaseOf T w = [v]" "isLetterOf T w" "\<not> isCombiningMark w"
proof -
  from assms have nd: "\<not> isDelimiter k" by (auto simp: settled_def split: if_splits)
  with assms obtain v where v: "upperCaseOf T k = [v]" "\<not> isParenthesis v" "\<not> isWhiteSpace v"
    and rest: "(case lowerCaseOf T v of
                      [w] \<Rightarrow>
                        upperCaseOf T w = [v] \<and> isLetterOf T w \<and> \<not> isCombiningMark w
                    | _ \<Rightarrow> False)"
    by (auto simp: settled_def split: list.splits)
  from rest obtain w where w: "lowerCaseOf T v = [w]" "upperCaseOf T w = [v]" "isLetterOf T w"
    "\<not> isCombiningMark w"
    by (auto split: list.splits)
  show ?thesis using that [of v w] v w by blast
qed


lemma relower_Nil: "relower T [] = []"
  by (simp add: relower_def toLowerCase_by_def)

lemma relower_Cons:
  "lowerCaseOf T c = [k] \<Longrightarrow> \<not> isCombiningMark k \<Longrightarrow> relower T (c # y) = k # relower T y"
  by (simp add: relower_def toLowerCase_by_def)

text \<open>What stands first in the capitalised string when its first character is copied.\<close>

lemma capitalise_keeps_head:
  assumes "settled T c" "\<not> (start \<and> isLetterOf T c)"
  shows "\<exists>ys. capitalise_by T start (c # rest) = c # ys"
proof (cases rest)
  case Nil
  with assms show ?thesis by auto
next
  case (Cons d ds)
  show ?thesis
  proof (cases "isDelimiter c \<and> isLetterOf T d")
    case True
    with assms settled_delimiter [of T c] show ?thesis
      unfolding Cons by (auto simp add: toUpperCase_by_def)
  next
    case False
    with assms show ?thesis unfolding Cons by auto
  qed
qed

declare capitalise_by.simps(2,3) [simp del]

lemma capitalise_again:
  "list_all (\<lambda>k. settled T k \<and> \<not> isCombiningMark k) m \<Longrightarrow>
     capitalise_by T start (relower T (capitalise_by T start m)) = capitalise_by T start m"
proof (induction T start m rule: capitalise_by.induct)
  case (1 T start)
  show ?case by (simp add: relower_Nil)
next
  case (2 T start c)
  then have sc: "settled T c" and nm: "\<not> isCombiningMark c" by simp_all
  show ?case
  proof (cases "start \<and> isLetterOf T c")
    case True
    with sc obtain v w where vw: "upperCaseOf T c = [v]" "lowerCaseOf T v = [w]"
      "upperCaseOf T w = [v]" "isLetterOf T w" "\<not> isCombiningMark w"
      by (auto elim: settled_letter)
    from True vw show ?thesis
      by (simp add: capitalise_head relower_Cons [of T v w] relower_Nil)
  next
    case False
    with nm settled_lower [OF sc] show ?thesis
      by (simp add: capitalise_single relower_Cons [of T c c] relower_Nil)
  qed
next
  case (3 T start c d ds)
  from 3(4) have sc: "settled T c" and nc: "\<not> isCombiningMark c"
    and sd: "settled T d" and nd: "\<not> isCombiningMark d"
    and rest: "list_all (\<lambda>k. settled T k \<and> \<not> isCombiningMark k) ds" by simp_all
  consider (head) "start \<and> isLetterOf T c"
    | (pair) "\<not> (start \<and> isLetterOf T c)" "isDelimiter c \<and> isLetterOf T d"
    | (copy) "\<not> (start \<and> isLetterOf T c)" "\<not> (isDelimiter c \<and> isLetterOf T d)"
    by blast
  then show ?case
  proof cases
    case head
    with sc obtain v w where vw: "upperCaseOf T c = [v]" "lowerCaseOf T v = [w]"
      "upperCaseOf T w = [v]" "isLetterOf T w" "\<not> isCombiningMark w"
      by (auto elim: settled_letter)
    let ?y = "capitalise_by T False (d # ds)"
    from head vw have eq: "capitalise_by T start (c # d # ds) = v # ?y"
      by (simp add: capitalise_head)
    from 3(1) [OF head] sd nd rest have IH: "capitalise_by T False (relower T ?y) = ?y" by simp
    have "capitalise_by T start (relower T (v # ?y)) = capitalise_by T start (w # relower T ?y)"
      using vw by (simp add: relower_Cons)
    also have "\<dots> = v # capitalise_by T False (relower T ?y)"
      using head vw by (simp add: capitalise_head)
    finally show ?thesis using eq IH by simp
  next
    case pair
    from pair sd obtain v w where vw: "upperCaseOf T d = [v]" "lowerCaseOf T v = [w]"
      "upperCaseOf T w = [v]" "isLetterOf T w" "\<not> isCombiningMark w"
      by (auto elim: settled_letter)
    from pair sc have uc: "upperCaseOf T c = [c]" by (simp add: settled_delimiter)
    let ?y = "capitalise_by T False ds"
    from pair vw uc have eq: "capitalise_by T start (c # d # ds) = c # v # ?y"
      by (simp add: capitalise_pair)
    from 3(2) [OF pair] rest have IH: "capitalise_by T False (relower T ?y) = ?y" by simp
    have "capitalise_by T start (relower T (c # v # ?y))
        = capitalise_by T start (c # w # relower T ?y)"
      using vw nc settled_lower [OF sc] by (simp add: relower_Cons)
    also have "\<dots> = c # v # capitalise_by T False (relower T ?y)"
      using pair vw uc by (simp add: capitalise_pair)
    finally show ?thesis using eq IH by simp
  next
    case copy
    let ?y = "capitalise_by T False (d # ds)"
    from copy have eq: "capitalise_by T start (c # d # ds) = c # ?y"
      by (simp add: capitalise_copy)
    from 3(3) [OF copy] sd nd rest have IH: "capitalise_by T False (relower T ?y) = ?y" by simp
    from capitalise_keeps_head [OF sd, of False ds] obtain ys where ys: "?y = d # ys" by auto
    have "relower T (c # ?y) = c # d # relower T ys"
      using nc nd settled_lower [OF sc] settled_lower [OF sd] unfolding ys
      by (simp add: relower_Cons)
    then have "capitalise_by T start (relower T (c # ?y))
        = c # capitalise_by T False (d # relower T ys)"
      using copy by (simp add: capitalise_copy)
    also have "d # relower T ys = relower T ?y"
      using nd settled_lower [OF sd] unfolding ys by (simp add: relower_Cons)
    finally show ?thesis using eq IH by simp
  qed
qed

lemma last_dropWhile_ne: "dropWhile P xs \<noteq> [] \<Longrightarrow> last (dropWhile P xs) = last xs"
  by (induction xs) (auto split: if_splits)

lemma trim_ends:
  assumes "trim s \<noteq> []"
  shows "\<not> isWhiteSpace (hd (trim s)) \<and> \<not> isWhiteSpace (last (trim s))"
proof -
  let ?t = "dropWhile isWhiteSpace s"
  let ?r = "dropWhile isWhiteSpace (rev ?t)"
  from assms have r: "?r \<noteq> []" by (simp add: trim_def)
  have t: "?t \<noteq> []"
  proof
    assume e: "?t = []"
    from r show False unfolding e by simp
  qed
  have "last (trim s) = hd ?r" using r by (simp add: trim_def last_rev)
  moreover have "\<not> isWhiteSpace (hd ?r)" using r by (rule hd_dropWhile)
  moreover have "hd (trim s) = last ?r" using r by (simp add: trim_def hd_rev)
  moreover have "last ?r = last (rev ?t)" using r by (rule last_dropWhile_ne)
  moreover have "last (rev ?t) = hd ?t" using t by (simp add: last_rev)
  moreover have "\<not> isWhiteSpace (hd ?t)" using t by (rule hd_dropWhile)
  ultimately show ?thesis by simp
qed

lemma trim_id:
  assumes "y \<noteq> []" "\<not> isWhiteSpace (hd y)" "\<not> isWhiteSpace (last y)"
  shows "trim y = y"
proof -
  from assms have "dropWhile isWhiteSpace y = y" by (cases y) simp_all
  moreover from assms have "dropWhile isWhiteSpace (rev y) = rev y"
    by (cases "rev y") (simp_all add: hd_rev [symmetric])
  ultimately show ?thesis by (simp add: trim_def)
qed

lemma capitalise_no_parenthesis:
  "list_all (\<lambda>k. settled T k \<and> \<not> isCombiningMark k) m \<Longrightarrow>
     list_all (\<lambda>c. \<not> isParenthesis c) (capitalise_by T start m)"
proof (induction T start m rule: capitalise_by.induct)
  case (1 T start)
  show ?case by simp
next
  case (2 T start c)
  then have sc: "settled T c" by simp
  show ?case
  proof (cases "start \<and> isLetterOf T c")
    case True
    with sc obtain v where "upperCaseOf T c = [v]" "\<not> isParenthesis v"
      by (auto elim: settled_letter)
    with True show ?thesis by (simp add: capitalise_head)
  next
    case False
    with settled_no_parenthesis [OF sc] show ?thesis by (simp add: capitalise_single)
  qed
next
  case (3 T start c d ds)
  from 3(4) have sc: "settled T c" and sd: "settled T d"
    and tail: "list_all (\<lambda>k. settled T k \<and> \<not> isCombiningMark k) (d # ds)"
    and rest: "list_all (\<lambda>k. settled T k \<and> \<not> isCombiningMark k) ds" by simp_all
  consider (head) "start \<and> isLetterOf T c"
    | (pair) "\<not> (start \<and> isLetterOf T c)" "isDelimiter c \<and> isLetterOf T d"
    | (copy) "\<not> (start \<and> isLetterOf T c)" "\<not> (isDelimiter c \<and> isLetterOf T d)"
    by blast
  then show ?case
  proof cases
    case head
    with sc obtain v where "upperCaseOf T c = [v]" "\<not> isParenthesis v"
      by (auto elim: settled_letter)
    with head 3(1) [OF head tail] show ?thesis by (simp add: capitalise_head)
  next
    case pair
    with sd obtain v where "upperCaseOf T d = [v]" "\<not> isParenthesis v"
      by (auto elim: settled_letter)
    moreover from pair sc have "upperCaseOf T c = [c]" by (simp add: settled_delimiter)
    ultimately show ?thesis
      using pair 3(2) [OF pair rest] settled_no_parenthesis [OF sc]
      by (simp add: capitalise_pair)
  next
    case copy
    with 3(3) [OF copy tail] settled_no_parenthesis [OF sc] show ?thesis
      by (simp add: capitalise_copy)
  qed
qed

lemma capitalise_first:
  assumes "settled T c" "\<not> isWhiteSpace c"
  shows "capitalise_by T start (c # rest) \<noteq> []
    \<and> \<not> isWhiteSpace (hd (capitalise_by T start (c # rest)))"
proof (cases "start \<and> isLetterOf T c")
  case True
  with assms obtain v where "upperCaseOf T c = [v]" "\<not> isWhiteSpace v"
    by (auto elim: settled_letter)
  with True show ?thesis by (simp add: capitalise_head)
next
  case False
  with capitalise_keeps_head [OF assms(1), of start rest] assms(2) show ?thesis by auto
qed

lemma capitalise_last:
  "list_all (\<lambda>k. settled T k \<and> \<not> isCombiningMark k) m \<Longrightarrow> m \<noteq> [] \<Longrightarrow>
     \<not> isWhiteSpace (last m) \<Longrightarrow>
     capitalise_by T start m \<noteq> [] \<and> \<not> isWhiteSpace (last (capitalise_by T start m))"
proof (induction T start m rule: capitalise_by.induct)
  case (1 T start)
  then show ?case by simp
next
  case (2 T start c)
  then have sc: "settled T c" and nw: "\<not> isWhiteSpace c" by simp_all
  show ?case
  proof (cases "start \<and> isLetterOf T c")
    case True
    with sc obtain v where "upperCaseOf T c = [v]" "\<not> isWhiteSpace v"
      by (auto elim: settled_letter)
    with True show ?thesis by (simp add: capitalise_head)
  next
    case False
    with nw show ?thesis by (simp add: capitalise_single)
  qed
next
  case (3 T start c d ds)
  from 3(4) have sc: "settled T c" and sd: "settled T d"
    and tail: "list_all (\<lambda>k. settled T k \<and> \<not> isCombiningMark k) (d # ds)"
    and rest: "list_all (\<lambda>k. settled T k \<and> \<not> isCombiningMark k) ds" by simp_all
  from 3(6) have lt: "\<not> isWhiteSpace (last (d # ds))" by simp
  consider (head) "start \<and> isLetterOf T c"
    | (pair) "\<not> (start \<and> isLetterOf T c)" "isDelimiter c \<and> isLetterOf T d"
    | (copy) "\<not> (start \<and> isLetterOf T c)" "\<not> (isDelimiter c \<and> isLetterOf T d)"
    by blast
  then show ?case
  proof cases
    case head
    with sc obtain v where v: "upperCaseOf T c = [v]" by (auto elim: settled_letter)
    from 3(1) [OF head tail _ lt]
    have "capitalise_by T False (d # ds) \<noteq> []
      \<and> \<not> isWhiteSpace (last (capitalise_by T False (d # ds)))" by simp
    with head v show ?thesis by (simp add: capitalise_head)
  next
    case pair
    with sd obtain v where v: "upperCaseOf T d = [v]" "\<not> isWhiteSpace v"
      by (auto elim: settled_letter)
    from pair sc have uc: "upperCaseOf T c = [c]" by (simp add: settled_delimiter)
    show ?thesis
    proof (cases "ds = []")
      case True
      with pair v uc show ?thesis by (simp add: capitalise_pair)
    next
      case False
      with lt have "\<not> isWhiteSpace (last ds)" by simp
      from 3(2) [OF pair rest False this]
      have "capitalise_by T False ds \<noteq> []
        \<and> \<not> isWhiteSpace (last (capitalise_by T False ds))" .
      with pair v uc show ?thesis by (simp add: capitalise_pair)
    qed
  next
    case copy
    from 3(3) [OF copy tail _ lt]
    have "capitalise_by T False (d # ds) \<noteq> []
      \<and> \<not> isWhiteSpace (last (capitalise_by T False (d # ds)))" by simp
    with copy show ?thesis by (simp add: capitalise_copy)
  qed
qed

lemma steady_lower:
  assumes "steady T c"
  obtains k where "lowerCaseOf T c = [k]" "isWhiteSpace k = isWhiteSpace c"
    "isCombiningMark k = isCombiningMark c" "settled T k"
proof (cases "lowerCaseOf T c")
  case Nil
  with assms show ?thesis by (simp add: steady_def)
next
  case (Cons k ks)
  with assms have "ks = []" by (cases ks) (simp_all add: steady_def)
  with assms Cons show ?thesis using that [of k] by (simp add: steady_def)
qed

text \<open>
  Claim C4, as stated: the normalizer is idempotent on every string. Three things
  break it. The parentheses are removed after the capitalisation: of \<open>(a\<close> the first
  pass leaves \<open>a\<close>, the second makes it \<open>A\<close>. The combining marks are stripped after
  the trimming: of \<open>a\<close>, space, \<open>U+0301\<close> the first pass leaves \<open>A\<close> and a space, which
  the second trims. An upper case of two letters is not restored: of \<open>U+00DF a\<close> the
  first pass makes \<open>SSa\<close>, the second \<open>Ssa\<close>.
\<close>

theorem C4_not_idempotent:
  "cleanPeopleNameJORFURL (u ''(a'') = u ''a''
   \<and> cleanPeopleNameJORFURL (cleanPeopleNameJORFURL (u ''(a'')) = u ''A''
   \<and> cleanPeopleNameJORFURL [0x61, 0x20, 0x301] = u ''A ''
   \<and> cleanPeopleNameJORFURL (cleanPeopleNameJORFURL [0x61, 0x20, 0x301]) = u ''A''
   \<and> cleanPeopleNameJORFURL [0xDF, 0x61] = u ''SSa''
   \<and> cleanPeopleNameJORFURL (cleanPeopleNameJORFURL [0xDF, 0x61]) = u ''Ssa''"
  by (simp add: normalizer_defs)

text \<open>
  Claim C4, amended: over the case tables of any runtime, the normalizer is idempotent
  on every string whose characters are steady under the case mapping (which a
  parenthesis and \<open>U+00DF\<close> are not) and which, once trimmed and stripped of its
  combining marks, has no white space left at either end.
\<close>

theorem C4_idempotent_on_steady_names:
  assumes steady: "\<forall>c\<in>set s. steady T c"
    and edges: "trim (filter (\<lambda>c. \<not> isCombiningMark c) (trim s))
                 = filter (\<lambda>c. \<not> isCombiningMark c) (trim s)"
  shows "cleanPeopleNameJORFURL_by T (cleanPeopleNameJORFURL_by T s)
           = cleanPeopleNameJORFURL_by T s"
proof -
  define lc where "lc c = hd (lowerCaseOf T c)" for c
  define n where "n = filter (\<lambda>c. \<not> isCombiningMark c) (trim s)"
  define m where "m = relower T (trim s)"
  define y where "y = capitalise_by T True m"
  have sub: "set (trim s) \<subseteq> set s"
    by (auto simp: trim_def dest!: set_dropWhileD)
  have low: "lowerCaseOf T c = [lc c] \<and> isWhiteSpace (lc c) = isWhiteSpace c
      \<and> isCombiningMark (lc c) = isCombiningMark c \<and> settled T (lc c)"
    if "c \<in> set s" for c
  proof -
    from steady that have "steady T c" by simp
    then obtain k where "lowerCaseOf T c = [k]" "isWhiteSpace k = isWhiteSpace c"
      "isCombiningMark k = isCombiningMark c" "settled T k" by (rule steady_lower)
    then show ?thesis by (simp add: lc_def)
  qed
  have "concat (map (lowerCaseOf T) t) = map lc t" if "set t \<subseteq> set s" for t
    using that low by (induction t) auto
  from this [OF sub] have "toLowerCase_by T (trim s) = map lc (trim s)"
    by (simp add: toLowerCase_by_def)
  then have "m = filter (\<lambda>c. \<not> isCombiningMark c) (map lc (trim s))"
    by (simp add: m_def relower_def)
  also have "\<dots> = map lc (filter (\<lambda>c. \<not> isCombiningMark (lc c)) (trim s))"
    by (simp add: filter_map comp_def)
  also have "filter (\<lambda>c. \<not> isCombiningMark (lc c)) (trim s) = n"
    unfolding n_def using sub low by (intro filter_cong) auto
  finally have mn: "m = map lc n" .
  have nsub: "set n \<subseteq> set s" using sub by (auto simp: n_def)
  have nmark: "\<not> isCombiningMark c" if "c \<in> set n" for c using that by (simp add: n_def)
  have settled_m: "list_all (\<lambda>k. settled T k \<and> \<not> isCombiningMark k) m"
    unfolding mn using nsub low nmark by (auto simp: list_all_iff)
  have nopar: "filter (\<lambda>c. \<not> isParenthesis c) y = y"
    using capitalise_no_parenthesis [OF settled_m, of True]
    by (simp add: y_def list_all_iff)
  have first: "cleanPeopleNameJORFURL_by T s = y" if "s \<noteq> []"
    using that nopar
    by (simp add: cleanPeopleNameJORFURL_by_def Let_def y_def m_def relower_def)
  show ?thesis
  proof (cases "s = [] \<or> y = []")
    case True
    then show ?thesis using first by (auto simp: cleanPeopleNameJORFURL_by_def)
  next
    case False
    then have sne: "s \<noteq> []" and yne: "y \<noteq> []" by simp_all
    from yne have mne: "m \<noteq> []" by (auto simp: y_def)
    then have nne: "n \<noteq> []" by (simp add: mn)
    from edges have "trim n = n" by (simp add: n_def)
    with trim_ends [of n] nne
    have "\<not> isWhiteSpace (hd n)" "\<not> isWhiteSpace (last n)" by simp_all
    moreover have "hd n \<in> set s" "last n \<in> set s" using nne nsub by auto
    ultimately have hm: "\<not> isWhiteSpace (hd m)" and lm: "\<not> isWhiteSpace (last m)"
      using nne low by (simp_all add: mn hd_map last_map)
    from mne obtain c rest where m_eq: "m = c # rest" by (cases m) auto
    with settled_m hm have "settled T c" "\<not> isWhiteSpace c" by simp_all
    from capitalise_first [OF this, of True rest]
    have "\<not> isWhiteSpace (hd y)" by (simp add: y_def m_eq)
    moreover from capitalise_last [OF settled_m mne lm, of True]
    have "\<not> isWhiteSpace (last y)" by (simp add: y_def)
    ultimately have "trim y = y" using yne by (intro trim_id)
    then have "cleanPeopleNameJORFURL_by T y
        = filter (\<lambda>c. \<not> isParenthesis c) (capitalise_by T True (relower T y))"
      using yne by (simp add: cleanPeopleNameJORFURL_by_def Let_def relower_def)
    also have "capitalise_by T True (relower T y) = y"
      unfolding y_def by (rule capitalise_again [OF settled_m])
    finally show ?thesis using first [OF sne] nopar by simp
  qed
qed

theorem C4_idempotent_on_steady_names_witness:
  "list_all (steady latin1)
       ([0x20] @ u ''rene'' @ [0x301] @ u '' o'brien-'' @ [0xB5, 0xFF, 0xE9, 0x20])
   \<and> cleanPeopleNameJORFURL
         ([0x20] @ u ''rene'' @ [0x301] @ u '' o'brien-'' @ [0xB5, 0xFF, 0xE9, 0x20])
       = u ''Rene O'Brien-'' @ [0x39C, 0xFF, 0xE9]
   \<and> cleanPeopleNameJORFURL
         (cleanPeopleNameJORFURL
            ([0x20] @ u ''rene'' @ [0x301] @ u '' o'brien-'' @ [0xB5, 0xFF, 0xE9, 0x20]))
       = cleanPeopleNameJORFURL
           ([0x20] @ u ''rene'' @ [0x301] @ u '' o'brien-'' @ [0xB5, 0xFF, 0xE9, 0x20])"
proof -
  let ?s = "[0x20] @ u ''rene'' @ [0x301] @ u '' o'brien-'' @ [0xB5, 0xFF, 0xE9, 0x20]"
  have steady: "list_all (steady latin1) ?s"
    by (simp add: steady_def settled_def latin1_def lower_def upper_def isLetter_def
        isWhiteSpace_def isDelimiter_def isCombiningMark_def isParenthesis_def u_def)
  have edges: "trim (filter (\<lambda>c. \<not> isCombiningMark c) (trim ?s))
      = filter (\<lambda>c. \<not> isCombiningMark c) (trim ?s)"
    by (simp add: trim_def isWhiteSpace_def isCombiningMark_def u_def)
  have val: "cleanPeopleNameJORFURL ?s = u ''Rene O'Brien-'' @ [0x39C, 0xFF, 0xE9]"
    by (simp add: normalizer_defs)
  from steady have "\<forall>c\<in>set ?s. steady latin1 c" by (simp only: list_all_iff)
  from C4_idempotent_on_steady_names [OF this edges]
  have "cleanPeopleNameJORFURL (cleanPeopleNameJORFURL ?s) = cleanPeopleNameJORFURL ?s"
    by (simp only: cleanPeopleNameJORFURL_latin1)
  with steady val show ?thesis by (simp only: simp_thms)
qed

section \<open>The two flags\<close>

text \<open>
  Claim C10. At \<open>/qrcode\<close> the verification flag is on whenever \<open>verify\<close> is
  present with a non-empty value, the string \<open>false\<close> included, since the code takes
  \<open>Boolean\<close> of the string; the frame is off only when \<open>frame\<close> is exactly the
  string \<open>false\<close>. For a person or a tag the flag so parsed is the one that reaches
  the \<open>switch\<close>.
\<close>

theorem C10_flags_parsed_differently:
  "(verifyOnJORFSearch q \<longleftrightarrow> (\<exists>v. query_verify q = Some v \<and> v \<noteq> []))
   \<and> verifyOnJORFSearch (q\<lparr>query_verify := Some (u ''false'')\<rparr>)
   \<and> (frameEnabled q \<longleftrightarrow> query_frame q \<noteq> Some (u ''false''))
   \<and> (\<forall>followType verify.
         qrcode_followType q = Inr (followType, verify) \<and> followType \<noteq> Organisation
         \<longrightarrow> verify = verifyOnJORFSearch q)"
proof (intro conjI allI impI)
  show "verifyOnJORFSearch q \<longleftrightarrow> (\<exists>v. query_verify q = Some v \<and> v \<noteq> [])"
    by (simp add: verifyOnJORFSearch_def Boolean_def split: option.split)
  show "verifyOnJORFSearch (q\<lparr>query_verify := Some (u ''false'')\<rparr>)"
    by (simp add: verifyOnJORFSearch_def Boolean_def u_def)
  show "frameEnabled q \<longleftrightarrow> query_frame q \<noteq> Some (u ''false'')"
    by (simp add: frameEnabled_def)
next
  fix followType verify
  assume "qrcode_followType q = Inr (followType, verify) \<and> followType \<noteq> Organisation"
  then show "verify = verifyOnJORFSearch q"
    by (auto simp: qrcode_followType_def Let_def split: if_splits)
qed

theorem C10_flags_parsed_differently_witness:
  "verifyOnJORFSearch
       (no_query\<lparr>query_name := Some (u ''Jean Dupont''), query_verify := Some (u ''false''),
                 query_frame := Some (u ''False'')\<rparr>)
   \<and> frameEnabled
       (no_query\<lparr>query_name := Some (u ''Jean Dupont''), query_verify := Some (u ''false''),
                 query_frame := Some (u ''False'')\<rparr>)
   \<and> qrcode_followType
       (no_query\<lparr>query_name := Some (u ''Jean Dupont''), query_verify := Some (u ''false''),
                 query_frame := Some (u ''False'')\<rparr>)
       = Inr (People, True)"
  using C10_flags_parsed_differently
    [of "no_query\<lparr>query_name := Some (u ''Jean Dupont''), query_verify := Some (u ''false''),
                  query_frame := Some (u ''False'')\<rparr>"]
  by (simp add: handler_defs example_defs)

section \<open>Exclusive parameters\<close>

lemma only_one_parameter_proceeds:
  "qrcode_followType q = Inr (followType, verify) \<Longrightarrow> length (provided q) = 1"
  by (auto simp: qrcode_followType_def provided_def Let_def split: if_splits)

text \<open>
  Claim C9, as stated: every request with two or more non-empty parameters fails with
  the conflict error, and every request with none fails with the missing-parameter
  error. Two checks come first in the handler. A name of more than two tokens sent
  together with an organisation gets the name format error; a request with \<open>size\<close>
  and the frame left on, and no parameter, gets the error on size and frame.
\<close>

theorem C9_earlier_checks_win:
  "fst (qrcode (server (always Rejected))
          (no_query\<lparr>query_name := Some (u ''Jean Paul Dupont''), query_organisation := Some (u ''Q1'')\<rparr>)
          fresh) = InvalidNameFormat
   \<and> InvalidNameFormat \<noteq> ConflictingParameters
   \<and> fst (qrcode (server (always Rejected)) (no_query\<lparr>query_size := Some (u ''300'')\<rparr>) fresh)
       = FixedSizeAndFrame
   \<and> FixedSizeAndFrame \<noteq> MissingParameter"
  by (simp add: handler_defs example_defs InvalidNameFormat_def ConflictingParameters_def
      FixedSizeAndFrame_def MissingParameter_def)

text \<open>
  Claim C9, amended: for every request that passes the check on size and frame and the
  check on the format of the name, two or more non-empty parameters among \<open>name\<close>,
  \<open>organisation\<close> and \<open>function_tag\<close> end in the conflict error, none ends in the
  missing-parameter error, and the request goes on to the resolution exactly when one
  parameter is non-empty.
\<close>

theorem C9_exclusive_parameters:
  assumes "\<not> (query_size q \<noteq> None \<and> frameEnabled q)"
    and "\<not> (orEmpty (query_name q) \<noteq> [] \<and> length (split_on 0x20 (orEmpty (query_name q))) > 2)"
  shows "(2 \<le> length (provided q) \<longrightarrow> qrcode e q w = (ConflictingParameters, w))
    \<and> (length (provided q) = 0 \<longrightarrow> qrcode e q w = (MissingParameter, w))
    \<and> (length (provided q) = 1 \<longleftrightarrow>
         (\<exists>followType verify. qrcode_followType q = Inr (followType, verify)))"
proof -
  have "qrcode_followType q =
      (if 2 \<le> length (provided q) then Inl ConflictingParameters
       else if length (provided q) = 0 then Inl MissingParameter
       else Inr (if orEmpty (query_name q) \<noteq> [] then People
                 else if orEmpty (query_organisation q) \<noteq> [] then Organisation else FunctionTag,
                 if orEmpty (query_organisation q) \<noteq> [] then True else verifyOnJORFSearch q))"
    using assms by (auto simp: qrcode_followType_def provided_def Let_def)
  note followType = this
  consider (many) "2 \<le> length (provided q)" | (none) "length (provided q) = 0"
    | (one) "length (provided q) = 1"
    by linarith
  then show ?thesis
  proof cases
    case many
    with followType have "qrcode_followType q = Inl ConflictingParameters" by simp
    with many show ?thesis by (auto simp: qrcode_def)
  next
    case none
    with followType have "qrcode_followType q = Inl MissingParameter" by simp
    with none show ?thesis by (auto simp: qrcode_def)
  next
    case one
    with followType have "\<exists>followType verify. qrcode_followType q = Inr (followType, verify)"
      by simp
    with one show ?thesis by auto
  qed
qed

theorem C9_exclusive_parameters_witness:
  "length (provided
       (no_query\<lparr>query_name := Some (u ''Jean Dupont''),
                 query_function_tag := Some (u ''ministre'')\<rparr>)) = 2
   \<and> qrcode (server (always Rejected))
       (no_query\<lparr>query_name := Some (u ''Jean Dupont''),
                 query_function_tag := Some (u ''ministre'')\<rparr>) fresh
       = (ConflictingParameters, fresh)
   \<and> length (provided no_query) = 0
   \<and> qrcode (server (always Rejected)) no_query fresh = (MissingParameter, fresh)"
  using C9_exclusive_parameters
      [of "no_query\<lparr>query_name := Some (u ''Jean Dupont''),
                    query_function_tag := Some (u ''ministre'')\<rparr>"
          "server (always Rejected)" fresh]
    C9_exclusive_parameters [of no_query "server (always Rejected)" fresh]
  by (simp add: no_query_def orEmpty_def provided_def frameEnabled_def u_def)

section \<open>The follow-up request\<close>

lemma at_most_two_requests:
  "length (requests (snd (callJORFSearchPeople index peopleName w))) \<le> length (requests w) + 2"
  by (simp add: callJORFSearchPeople_def axios_get_def umami_log_def Let_def
      split: option.split AxiosResponse.split body.split)

lemmas client_defs =
  callJORFSearchPeople_def callJORFSearchTag_def callJORFSearchOrganisation_def
  cleanJORFItems_def umami_log_def endsWith_def FORMAT_JSON_def

text \<open>
  Claim C5. A lookup by name sends at most two requests. When the index answers the
  first request with a bare string and the transport gives the location it ended at
  (a non-empty \<open>responseUrl\<close>), the client sends exactly one more request, to that
  location, with \<open>?format=JSON\<close> appended only if the location does not end with it,
  and the answer to this request is final: an array is normalized, and a string, a
  null body or a failure gives the empty list.
\<close>

theorem C5_one_follow_up:
  "length (requests (snd (callJORFSearchPeople index peopleName w))) \<le> length (requests w) + 2
   \<and> (\<forall>url1 s loc url2.
         encodeURI (JORFSEARCH @ u ''name/'' @ cleanPeopleNameJORFURL peopleName @ FORMAT_JSON)
           = Some url1
         \<and> index (requests w) url1 = Fulfilled (Str s) (Some loc) \<and> loc \<noteq> []
         \<and> url2 = (if endsWith loc FORMAT_JSON then loc else loc @ FORMAT_JSON)
         \<longrightarrow>
           requests (snd (callJORFSearchPeople index peopleName w)) = requests w @ [url1, url2]
           \<and> fst (callJORFSearchPeople index peopleName w)
               = (case index (requests w @ [url1]) url2 of
                    Rejected \<Rightarrow> []
                  | Fulfilled data2 location2 \<Rightarrow>
                      (case data2 of
                         Null \<Rightarrow> []
                       | Str s2 \<Rightarrow> []
                       | Array raw_items \<Rightarrow> cleanJORFItems raw_items)))"
proof (intro conjI allI impI)
  show "length (requests (snd (callJORFSearchPeople index peopleName w))) \<le> length (requests w) + 2"
    by (rule at_most_two_requests)
next
  fix url1 s loc url2
  assume h: "encodeURI (JORFSEARCH @ u ''name/'' @ cleanPeopleNameJORFURL peopleName @ FORMAT_JSON)
           = Some url1
         \<and> index (requests w) url1 = Fulfilled (Str s) (Some loc) \<and> loc \<noteq> []
         \<and> url2 = (if endsWith loc FORMAT_JSON then loc else loc @ FORMAT_JSON)"
  then show "requests (snd (callJORFSearchPeople index peopleName w)) = requests w @ [url1, url2]"
    by (simp add: callJORFSearchPeople_def axios_get_def umami_log_def Let_def
        split: AxiosResponse.split body.split)
  from h show "fst (callJORFSearchPeople index peopleName w)
               = (case index (requests w @ [url1]) url2 of
                    Rejected \<Rightarrow> []
                  | Fulfilled data2 location2 \<Rightarrow>
                      (case data2 of
                         Null \<Rightarrow> []
                       | Str s2 \<Rightarrow> []
                       | Array raw_items \<Rightarrow> cleanJORFItems raw_items))"
    by (simp add: callJORFSearchPeople_def axios_get_def umami_log_def Let_def
        split: AxiosResponse.split body.split)
qed

theorem C5_one_follow_up_witness:
  "callJORFSearchPeople
     (always (Fulfilled (Str (u ''moved''))
        (Some (u ''https://jorfsearch.steinertriples.ch/name/Jean%20Dupont''))))
     (u ''dupont jean'') fresh
   = ([],
      \<lparr>requests =
         [u ''https://jorfsearch.steinertriples.ch/name/Dupont%20Jean?format=JSON'',
          u ''https://jorfsearch.steinertriples.ch/name/Jean%20Dupont?format=JSON''],
       events = [JorfsearchRequestPeople, JorfsearchRequestPeopleFormatted]\<rparr>)"
  using C5_one_follow_up
    [of "always (Fulfilled (Str (u ''moved''))
           (Some (u ''https://jorfsearch.steinertriples.ch/name/Jean%20Dupont'')))"
        "u ''dupont jean''" fresh]
  by (simp add: client_defs handler_defs normalizer_defs example_defs)

section \<open>The organisation branch\<close>

lemma organisation_branch:
  "qrcode_followType q = Inr (Organisation, verify) \<Longrightarrow>
     verify \<and> orEmpty (query_name q) = [] \<and> orEmpty (query_organisation q) \<noteq> []
     \<and> orEmpty (query_function_tag q) = []"
  by (auto simp: qrcode_followType_def Let_def split: if_splits)

text \<open>
  Claim C8. For a request in the organisation branch, whatever its \<open>verify\<close>
  parameter, the index is asked for the names of the identifier. When it answers with
  an array of identities: no identity ends in the no-result error, two or more in the
  too-many-results error, and exactly one makes its \<open>name\<close> the label. The same
  holds for \<open>/choose\<close> with an \<open>organisation\<close> and no \<open>name\<close>.
\<close>

theorem C8_organisation_branch:
  assumes "qrcode_followType q = Inr (Organisation, verify)"
    and "encodeURI (JORFSEARCH @ u ''wikidata_id_to_name?ids[]='' @ orEmpty (query_organisation q))
           = Some url"
    and "net e (requests w) url = Fulfilled (Array identities) loc"
  shows "verify
    \<and> requests (snd (qrcode e q w)) = requests w @ [url]
    \<and> (identities = [] \<longrightarrow> fst (qrcode e q w) = NotFound)
    \<and> (2 \<le> length identities \<longrightarrow> fst (qrcode e q w) = AmbiguousResult)
    \<and> (\<forall>identity qr_url.
          identities = [identity]
          \<and> encodeURI (APP_URL e @ u ''/choose?&organisation='' @ orEmpty (query_organisation q))
              = Some qr_url
          \<longrightarrow> qrcode_resolve e q Organisation verify w
                = (Inr (qr_url, name identity), w\<lparr>requests := requests w @ [url]\<rparr>))
    \<and> (query_name q = None \<longrightarrow>
          requests (snd (choose_resolve e q w)) = requests w @ [url]
          \<and> (identities = [] \<longrightarrow> fst (choose_resolve e q w) = Inl NotFound)
          \<and> (2 \<le> length identities \<longrightarrow> fst (choose_resolve e q w) = Inl AmbiguousResult)
          \<and> (\<forall>identity.
                identities = [identity] \<and> query_function_tag q = None
                \<longrightarrow> choose_resolve e q w
                      = (Inr (Some Organisation, orEmpty (query_organisation q), name identity),
                         w\<lparr>requests := requests w @ [url]\<rparr>)))"
proof -
  from organisation_branch [OF assms(1)]
  have v: verify and org: "orEmpty (query_organisation q) \<noteq> []" by simp_all
  from org obtain organisation where o: "query_organisation q = Some organisation"
    by (cases "query_organisation q") (simp_all add: orEmpty_def)
  with assms(2) have enc: "encodeURI (JORFSEARCH @ u ''wikidata_id_to_name?ids[]='' @ organisation)
           = Some url" by (simp add: orEmpty_def)
  have call: "callJORFSearchOrganisationName (net e) organisation w
      = (Array identities, w\<lparr>requests := requests w @ [url]\<rparr>)"
    using enc assms(3) by (simp add: callJORFSearchOrganisationName_def axios_get_def)
  have resolve: "qrcode_resolve e q Organisation verify w =
      (if identities = [] then (Inl NotFound, w\<lparr>requests := requests w @ [url]\<rparr>)
       else if 2 \<le> length identities then (Inl AmbiguousResult, w\<lparr>requests := requests w @ [url]\<rparr>)
       else (case encodeURI (APP_URL e @ u ''/choose?&organisation='' @ organisation) of
               None \<Rightarrow> (Inl GenerationFailed, w\<lparr>requests := requests w @ [url]\<rparr>)
             | Some qr_url \<Rightarrow> (Inr (qr_url, name (hd identities)), w\<lparr>requests := requests w @ [url]\<rparr>)))"
    using call o
    by (cases identities)
       (auto simp: qrcode_resolve_def orEmpty_def body_length_def first_name_def Let_def
             Suc_le_eq split: option.split)
  have reqs: "requests (snd (qrcode e q w)) = requests w @ [url]"
    using assms(1) resolve
    by (auto simp: qrcode_def qrcode_render_def umami_log_def split: option.split)
  have nf: "identities = [] \<longrightarrow> fst (qrcode e q w) = NotFound"
    using assms(1) resolve by (simp add: qrcode_def)
  have amb: "2 \<le> length identities \<longrightarrow> fst (qrcode e q w) = AmbiguousResult"
    using assms(1) resolve by (auto simp: qrcode_def)
  have one: "\<forall>identity qr_url.
          identities = [identity]
          \<and> encodeURI (APP_URL e @ u ''/choose?&organisation='' @ orEmpty (query_organisation q))
              = Some qr_url
          \<longrightarrow> qrcode_resolve e q Organisation verify w
                = (Inr (qr_url, name identity), w\<lparr>requests := requests w @ [url]\<rparr>)"
    using resolve o by (auto simp: orEmpty_def)
  have choose: "query_name q = None \<Longrightarrow> choose_resolve e q w =
      (if identities = [] then (Inl NotFound, w\<lparr>requests := requests w @ [url]\<rparr>)
       else if 2 \<le> length identities then (Inl AmbiguousResult, w\<lparr>requests := requests w @ [url]\<rparr>)
       else if query_function_tag q \<noteq> None then (Inl ConflictingParameters, w\<lparr>requests := requests w @ [url]\<rparr>)
       else (Inr (Some Organisation, organisation, name (hd identities)), w\<lparr>requests := requests w @ [url]\<rparr>))"
    using call o
    by (cases identities)
       (auto simp: choose_resolve_def orEmpty_def body_length_def first_name_def Let_def
             Suc_le_eq split: option.split)
  have ch: "query_name q = None \<longrightarrow>
          requests (snd (choose_resolve e q w)) = requests w @ [url]
          \<and> (identities = [] \<longrightarrow> fst (choose_resolve e q w) = Inl NotFound)
          \<and> (2 \<le> length identities \<longrightarrow> fst (choose_resolve e q w) = Inl AmbiguousResult)
          \<and> (\<forall>identity.
                identities = [identity] \<and> query_function_tag q = None
                \<longrightarrow> choose_resolve e q w
                      = (Inr (Some Organisation, orEmpty (query_organisation q), name identity),
                         w\<lparr>requests := requests w @ [url]\<rparr>))"
    using choose o by (auto simp: orEmpty_def)
  from v reqs nf amb one ch show ?thesis by blast
qed

theorem C8_organisation_branch_witness:
  "fst (qrcode
          (server (always (Fulfilled
             (Array [\<lparr>prenom = None, nom = None, name = Some (u ''Senat'')\<rparr>,
                     \<lparr>prenom = None, nom = None, name = Some (u ''Senat de Belgique'')\<rparr>])
             None)))
          (no_query\<lparr>query_organisation := Some (u ''Q1'')\<rparr>) fresh)
     = AmbiguousResult
   \<and> qrcode_resolve
         (server (always (Fulfilled
            (Array [\<lparr>prenom = None, nom = None, name = Some (u ''Senat'')\<rparr>]) None)))
         (no_query\<lparr>query_organisation := Some (u ''Q1'')\<rparr>) Organisation True fresh
       = (Inr (u ''http://joel.test/choose?&organisation=Q1'', Some (u ''Senat'')),
          fresh\<lparr>requests :=
            requests fresh
            @ [u ''https://jorfsearch.steinertriples.ch/wikidata_id_to_name?ids%5B%5D=Q1'']\<rparr>)
   \<and> fst (qrcode (server (always (Fulfilled (Array []) None)))
            (no_query\<lparr>query_organisation := Some (u ''Q1'')\<rparr>) fresh)
       = NotFound"
  using
    C8_organisation_branch
      [of "no_query\<lparr>query_organisation := Some (u ''Q1'')\<rparr>" True
          "u ''https://jorfsearch.steinertriples.ch/wikidata_id_to_name?ids%5B%5D=Q1''"
          "server (always (Fulfilled
             (Array [\<lparr>prenom = None, nom = None, name = Some (u ''Senat'')\<rparr>,
                     \<lparr>prenom = None, nom = None, name = Some (u ''Senat de Belgique'')\<rparr>])
             None))"
          fresh
          "[\<lparr>prenom = None, nom = None, name = Some (u ''Senat'')\<rparr>,
            \<lparr>prenom = None, nom = None, name = Some (u ''Senat de Belgique'')\<rparr>]"
          None]
    C8_organisation_branch
      [of "no_query\<lparr>query_organisation := Some (u ''Q1'')\<rparr>" True
          "u ''https://jorfsearch.steinertriples.ch/wikidata_id_to_name?ids%5B%5D=Q1''"
          "server (always (Fulfilled
             (Array [\<lparr>prenom = None, nom = None, name = Some (u ''Senat'')\<rparr>]) None))"
          fresh
          "[\<lparr>prenom = None, nom = None, name = Some (u ''Senat'')\<rparr>]"
          None]
    C8_organisation_branch
      [of "no_query\<lparr>query_organisation := Some (u ''Q1'')\<rparr>" True
          "u ''https://jorfsearch.steinertriples.ch/wikidata_id_to_name?ids%5B%5D=Q1''"
          "server (always (Fulfilled (Array []) None))"
          fresh "[]" None]
  by (simp add: handler_defs example_defs)

end
